theory Spec2Isabelle
  imports Main
begin

section \<open>The rrd wrapper (rrd.go): values and their text\<close>

text \<open>
  The wrapper turns typed calls into the colon-separated command language of the
  round-robin database engine. Arguments arrive as Go \<^verbatim>\<open>interface{}\<close> values; the
  only dynamic type the code tells apart is \<^verbatim>\<open>time.Time\<close>.
\<close>

subsection \<open>Decimal text of integers\<close>

text \<open>
  \<^verbatim>\<open>fmt.Sprint\<close> of a Go integer is its decimal text. The digits are produced from the
  least significant one into the front of what is already there, as the library's
  conversion loop does.
\<close>

definition digit :: "nat \<Rightarrow> char" where
  "digit d = ''0123456789'' ! d"

function formatBits :: "nat \<Rightarrow> string \<Rightarrow> string" where
  "formatBits n acc =
     (if n < 10 then digit n # acc else formatBits (n div 10) (digit (n mod 10) # acc))"
  by pat_completeness auto
termination
  by (relation "measure fst") auto

declare formatBits.simps [simp del]

definition FormatUint :: "nat \<Rightarrow> string" where
  "FormatUint n = formatBits n []"

definition FormatInt :: "int \<Rightarrow> string" where
  "FormatInt i = (if i < 0 then CHR ''-'' # FormatUint (nat (- i)) else FormatUint (nat i))"

subsection \<open>Reading decimal text back\<close>

text \<open>
  The number that a string of decimal digits denotes, and the integer that an optional
  minus sign followed by digits denotes.
\<close>

definition digit_value :: "char \<Rightarrow> nat" where
  "digit_value c = of_char c - of_char (CHR ''0'')"

definition decimal_value :: "string \<Rightarrow> nat" where
  "decimal_value ds = foldl (\<lambda>n c. 10 * n + digit_value c) 0 ds"

definition integer_value :: "string \<Rightarrow> int" where
  "integer_value s =
     (case s of
        [] \<Rightarrow> 0
      | c # ds \<Rightarrow> if c = CHR ''-'' then - int (decimal_value ds) else int (decimal_value s))"

subsection \<open>Timestamps and argument values\<close>

text \<open>
  A \<^verbatim>\<open>time.Time\<close> is an instant: whole seconds since the epoch (a 64-bit count, no
  arithmetic is done on it here), the nanoseconds within the second, and the name of
  its location. \<^verbatim>\<open>Unix()\<close> reads the seconds.
\<close>

record Time =
  sec :: int
  nsec :: nat
  loc :: string

definition Unix :: "Time \<Rightarrow> int" where
  "Unix t = sec t"

text \<open>
  The dynamic types a caller passes. \<open>OpaqueV\<close> stands for a value of any further type
  (a float, a duration), carried by the text \<^verbatim>\<open>fmt.Sprint\<close> prints for it: that text
  is all the wrapper ever takes from such a value.
\<close>

datatype val = IntV int | UintV nat | StringV string | BoolV bool | OpaqueV string

datatype iface = VTime Time | Val val

text \<open>\<^verbatim>\<open>fmt.Sprint(v)\<close> for one operand: the default text of the value's type.\<close>

fun Sprint :: "val \<Rightarrow> string" where
  "Sprint (IntV i) = FormatInt i"
| "Sprint (UintV n) = FormatUint n"
| "Sprint (StringV s) = s"
| "Sprint (BoolV b) = (if b then ''true'' else ''false'')"
| "Sprint (OpaqueV s) = s"

subsection \<open>The command serializer: \<^verbatim>\<open>join\<close>\<close>

text \<open>
  \<^verbatim>\<open>strings.Join(elems, sep)\<close>: nothing for no element, the element itself for one,
  otherwise the first element followed by separator and element for each further one.
\<close>

fun strings_Join :: "string list \<Rightarrow> string \<Rightarrow> string" where
  "strings_Join [] sep = []"
| "strings_Join [e] sep = e"
| "strings_Join (e # es) sep = e @ concat (map (\<lambda>s. sep @ s) es)"

text \<open>The body of the type switch in \<^verbatim>\<open>join\<close>: the text of one argument.\<close>

fun arg_text :: "iface \<Rightarrow> string" where
  "arg_text (VTime v) = Sprint (IntV (Unix v))"
| "arg_text (Val v) = Sprint v"

text \<open>
  The loop \<^verbatim>\<open>for i, a := range args { ...; sa[i] = s }\<close> over the slice
  \<^verbatim>\<open>sa := make([]string, len(args))\<close>.
\<close>

fun join_loop :: "nat \<Rightarrow> iface list \<Rightarrow> string list \<Rightarrow> string list" where
  "join_loop i [] sa = sa"
| "join_loop i (a # as) sa = join_loop (Suc i) as (sa[i := arg_text a])"

definition join :: "iface list \<Rightarrow> string" where
  "join args = strings_Join (join_loop 0 args (replicate (length args) [])) '':''"

text \<open>
  The serializer as the specification words it: the canonical text of each value, in
  order, with a colon between neighbours.
\<close>

fun colon_separated :: "string list \<Rightarrow> string" where
  "colon_separated [] = []"
| "colon_separated [s] = s"
| "colon_separated (s # t # ts) = s @ '':'' @ colon_separated (t # ts)"

definition canonical_text :: "iface \<Rightarrow> string" where
  "canonical_text a =
     (case a of VTime t \<Rightarrow> FormatInt (sec t) | Val v \<Rightarrow> Sprint v)"

definition serialize_spec :: "iface list \<Rightarrow> string" where
  "serialize_spec args = colon_separated (map canonical_text args)"

section \<open>Byte buffers handed to the engine\<close>

text \<open>
  A \<^verbatim>\<open>cstring\<close> is a byte slice. \<^verbatim>\<open>newCstring\<close> makes \<^verbatim>\<open>len(s)+1\<close> zero bytes and
  copies the string over them, which leaves one terminating zero byte.
\<close>

type_synonym cstring = "char list"

text \<open>Go's \<^verbatim>\<open>copy(dst, src)\<close>: as many elements as both slices have.\<close>

definition copy :: "char list \<Rightarrow> char list \<Rightarrow> char list" where
  "copy dst src = take (length dst) src @ drop (length src) dst"

definition newCstring :: "string \<Rightarrow> cstring" where
  "newCstring s = copy (replicate (length s + 1) (CHR 0x00)) s"

text \<open>
  An \<^verbatim>\<open>unsafe.Pointer\<close> is nil or the address of a buffer. No buffer is written after
  it is made, so the address is represented by the bytes it points to.
\<close>

type_synonym pointer = "cstring option"

definition cstring_p :: "cstring \<Rightarrow> pointer" where
  "cstring_p cs = (if length cs = 0 then None else Some cs)"

text \<open>\<^verbatim>\<open>String()\<close> slices off the last byte; on an empty slice the slice expression panics.\<close>

definition cstring_String :: "cstring \<Rightarrow> string option" where
  "cstring_String cs = (if length cs = 0 then None else Some (take (length cs - 1) cs))"

section \<open>The world outside: files and the engine\<close>

datatype errno = EEXIST | EACCES | ENOENT | ENOSPC

text \<open>
  A Go \<^verbatim>\<open>error\<close> value is either the \<^verbatim>\<open>*os.PathError\<close> of a failed file operation
  (operation, path, cause) or the wrapper's own \<^verbatim>\<open>type Error string\<close>, which carries an
  engine message.
\<close>

datatype error = PathError string string errno | Error string

datatype flag = O_WRONLY | O_CREATE | O_EXCL

record File =
  file_name :: string
  file_fd :: nat

text \<open>
  The requests that cross the foreign-call boundary:
  \<^verbatim>\<open>engine.create(target, startEpoch, stepSeconds, tokens[])\<close> and
  \<^verbatim>\<open>engine.update(target, templateOrEmpty, rows[])\<close>.
\<close>

datatype request =
    create_request string int nat "string list"
  | update_request pointer pointer "pointer list"

datatype event = Opened string nat | Closed nat | Call request

text \<open>
  The engine is a parameter: any function from a request and the engine's own state to
  an optional error message (none for success) and a new engine state.
\<close>

type_synonym 'e engine = "request \<Rightarrow> 'e \<Rightarrow> string option \<times> 'e"

text \<open>
  The world: the paths that exist, the paths the system refuses to reach (with the
  cause), the next free descriptor, everything that has happened so far in order, and
  the state of the engine.
\<close>

record 'e world =
  files :: "string set"
  refused :: "string \<Rightarrow> errno option"
  next_fd :: nat
  trace :: "event list"
  estate :: 'e

text \<open>
  \<^verbatim>\<open>os.OpenFile(name, flag, perm)\<close>. A path that cannot be reached fails with the
  system's cause; with \<^verbatim>\<open>O_CREATE|O_EXCL\<close> an existing path fails with \<open>EEXIST\<close>;
  without \<^verbatim>\<open>O_CREATE\<close> a missing path fails with \<open>ENOENT\<close>; otherwise the file is
  opened (and created if missing) under a fresh descriptor.
\<close>

definition OpenFile ::
  "string \<Rightarrow> flag set \<Rightarrow> nat \<Rightarrow> 'e world \<Rightarrow> (error + File) \<times> 'e world" where
  "OpenFile path flags perm w =
     (case refused w path of
        Some e \<Rightarrow> (Inl (PathError ''open'' path e), w)
      | None \<Rightarrow>
          if path \<in> files w \<and> O_CREATE \<in> flags \<and> O_EXCL \<in> flags
            then (Inl (PathError ''open'' path EEXIST), w)
          else if path \<notin> files w \<and> O_CREATE \<notin> flags
            then (Inl (PathError ''open'' path ENOENT), w)
          else (Inr \<lparr>file_name = path, file_fd = next_fd w\<rparr>,
                w\<lparr>files := insert path (files w), next_fd := Suc (next_fd w),
                  trace := trace w @ [Opened path (next_fd w)]\<rparr>))"

definition Close :: "File \<Rightarrow> 'e world \<Rightarrow> 'e world" where
  "Close f w = w\<lparr>trace := trace w @ [Closed (file_fd f)]\<rparr>"

text \<open>One request to the engine: it is recorded, and the engine's state moves on.\<close>

definition invoke :: "'e engine \<Rightarrow> request \<Rightarrow> 'e world \<Rightarrow> error option \<times> 'e world" where
  "invoke eng rq w =
     (case eng rq (estate w) of
        (msg, e') \<Rightarrow> (map_option Error msg, w\<lparr>trace := trace w @ [Call rq], estate := e'\<rparr>))"

section \<open>Schema builder: \<^verbatim>\<open>Creator\<close>\<close>

record Creator =
  filename :: string
  start :: Time
  step :: nat
  args :: "string list"

definition NewCreator :: "string \<Rightarrow> Time \<Rightarrow> nat \<Rightarrow> Creator" where
  "NewCreator file t0 secs =
     \<lparr>filename = file, start = t0, step = secs, args = []\<rparr>"

definition DS :: "Creator \<Rightarrow> string \<Rightarrow> string \<Rightarrow> iface list \<Rightarrow> Creator" where
  "DS c name compute as =
     c\<lparr>args := args c @ [''DS:'' @ name @ '':'' @ compute @ '':'' @ join as]\<rparr>"

definition RRA :: "Creator \<Rightarrow> string \<Rightarrow> iface list \<Rightarrow> Creator" where
  "RRA c cf as = c\<lparr>args := args c @ [''RRA:'' @ cf @ '':'' @ join as]\<rparr>"

text \<open>
  Modelled from the spec: the unexported method \<^verbatim>\<open>create\<close> of \<^verbatim>\<open>Creator\<close>, whose body is on
  the foreign-call side and not part of \<^verbatim>\<open>rrd.go\<close>. It issues the accumulated schema to
  the engine as one request, \<^verbatim>\<open>engine.create(target, startEpoch, stepSeconds, tokens[])\<close>,
  and returns the engine's message wrapped as an engine error.
\<close>

definition create :: "'e engine \<Rightarrow> Creator \<Rightarrow> 'e world \<Rightarrow> error option \<times> 'e world" where
  "create eng c w =
     invoke eng (create_request (filename c) (Unix (start c)) (step c) (args c)) w"

text \<open>The permission bits \<^verbatim>\<open>0666\<close>, an octal literal in the source.\<close>

definition perm_0666 :: nat where
  "perm_0666 = 6 * 8 * 8 + 6 * 8 + 6"

definition Create :: "'e engine \<Rightarrow> Creator \<Rightarrow> bool \<Rightarrow> 'e world \<Rightarrow> error option \<times> 'e world" where
  "Create eng c overwrite w =
     (if \<not> overwrite then
        (case OpenFile (filename c) {O_WRONLY, O_CREATE, O_EXCL} perm_0666 w of
           (Inl err, w') \<Rightarrow> (Some err, w')
         | (Inr f, w') \<Rightarrow> create eng c (Close f w'))
      else create eng c w)"

text \<open>A history of builder calls on one \<^verbatim>\<open>Creator\<close>.\<close>

datatype creator_call = CallDS string string "iface list" | CallRRA string "iface list"

fun creator_do :: "Creator \<Rightarrow> creator_call \<Rightarrow> Creator" where
  "creator_do c (CallDS name compute as) = DS c name compute as"
| "creator_do c (CallRRA cf as) = RRA c cf as"

text \<open>The token the specification gives for each builder call.\<close>

fun creator_token :: "creator_call \<Rightarrow> string" where
  "creator_token (CallDS name compute as) =
     ''DS:'' @ name @ '':'' @ compute @ '':'' @ serialize_spec as"
| "creator_token (CallRRA cf as) = ''RRA:'' @ cf @ '':'' @ serialize_spec as"

section \<open>Sample buffer: \<^verbatim>\<open>Updater\<close>\<close>

record Updater =
  filename :: cstring
  template :: cstring
  args :: "pointer list"

text \<open>The template of a new \<^verbatim>\<open>Updater\<close> is the nil slice, its buffer the nil slice.\<close>

definition NewUpdater :: "string \<Rightarrow> Updater" where
  "NewUpdater file = \<lparr>filename = newCstring file, template = [], args = []\<rparr>"

definition SetTemplate :: "Updater \<Rightarrow> string list \<Rightarrow> Updater" where
  "SetTemplate u dsName = u\<lparr>template := newCstring (strings_Join dsName '':'')\<rparr>"

definition Cache :: "Updater \<Rightarrow> iface list \<Rightarrow> Updater" where
  "Cache u as = u\<lparr>args := args u @ [cstring_p (newCstring (join as))]\<rparr>"

text \<open>
  Modelled from the spec: the unexported method \<^verbatim>\<open>update\<close> of \<^verbatim>\<open>Updater\<close>, whose body is on
  the foreign-call side and not part of \<^verbatim>\<open>rrd.go\<close>. It submits the rows it is given to
  the engine as one request, \<^verbatim>\<open>engine.update(target, templateOrEmpty, rows[])\<close>, with the
  file name and the template of the \<^verbatim>\<open>Updater\<close>, and returns the engine's message wrapped
  as an engine error.
\<close>

definition update ::
  "'e engine \<Rightarrow> Updater \<Rightarrow> pointer list \<Rightarrow> 'e world \<Rightarrow> error option \<times> 'e world" where
  "update eng u rows w =
     invoke eng (update_request (cstring_p (filename u)) (cstring_p (template u)) rows) w"

text \<open>
  \<^verbatim>\<open>Update(args...)\<close>. With arguments: a fresh slice of one pointer, filled at index 0,
  goes to \<^verbatim>\<open>update\<close>. Without arguments and with rows pending: the buffer goes to
  \<^verbatim>\<open>update\<close>, then \<^verbatim>\<open>u.args = nil\<close>, then the error is returned. Otherwise nil.
\<close>

definition Update ::
  "'e engine \<Rightarrow> Updater \<Rightarrow> iface list \<Rightarrow> 'e world \<Rightarrow> error option \<times> Updater \<times> 'e world" where
  "Update eng u as w =
     (if length as \<noteq> 0 then
        (let a = (replicate 1 None)[0 := cstring_p (newCstring (join as))]
         in case update eng u a w of (err, w') \<Rightarrow> (err, u, w'))
      else if length (args u) \<noteq> 0 then
        (case update eng u (args u) w of (err, w') \<Rightarrow> (err, u\<lparr>args := []\<rparr>, w'))
      else (None, u, w))"

text \<open>A run of \<^verbatim>\<open>Cache\<close> calls, one argument list per call.\<close>

definition Cache_all :: "Updater \<Rightarrow> iface list list \<Rightarrow> Updater" where
  "Cache_all u calls = foldl Cache u calls"

text \<open>The text a pending row holds, read back from its buffer.\<close>

definition row_text :: "pointer \<Rightarrow> string option" where
  "row_text a = (case a of None \<Rightarrow> None | Some cs \<Rightarrow> cstring_String cs)"

text \<open>The request by which the pending buffer of an \<^verbatim>\<open>Updater\<close> is submitted.\<close>

definition flush_request :: "Updater \<Rightarrow> request" where
  "flush_request u =
     update_request (cstring_p (Updater.filename u)) (cstring_p (template u)) (Updater.args u)"

text \<open>The request by which one row is submitted at once.\<close>

definition row_request :: "Updater \<Rightarrow> iface list \<Rightarrow> request" where
  "row_request u as =
     update_request (cstring_p (Updater.filename u)) (cstring_p (template u))
       [cstring_p (newCstring (join as))]"

text \<open>A history of calls on one \<^verbatim>\<open>Updater\<close>; the errors returned are dropped.\<close>

datatype updater_call =
    CallSetTemplate "string list"
  | CallCache "iface list"
  | CallUpdate "iface list"

fun updater_do :: "'e engine \<Rightarrow> Updater \<times> 'e world \<Rightarrow> updater_call \<Rightarrow> Updater \<times> 'e world" where
  "updater_do eng (u, w) (CallSetTemplate dsName) = (SetTemplate u dsName, w)"
| "updater_do eng (u, w) (CallCache as) = (Cache u as, w)"
| "updater_do eng (u, w) (CallUpdate as) = snd (Update eng u as w)"

fun is_SetTemplate :: "updater_call \<Rightarrow> bool" where
  "is_SetTemplate (CallSetTemplate dsName) = True"
| "is_SetTemplate (CallCache as) = False"
| "is_SetTemplate (CallUpdate as) = False"

text \<open>The templates of the update requests in a stretch of the trace, in order.\<close>

fun update_templates :: "event list \<Rightarrow> pointer list" where
  "update_templates [] = []"
| "update_templates (Call (update_request file tmpl rows) # evs) = tmpl # update_templates evs"
| "update_templates (ev # evs) = update_templates evs"

text \<open>The requests to the engine in a stretch of the trace, in order.\<close>

fun requests :: "event list \<Rightarrow> request list" where
  "requests [] = []"
| "requests (Call rq # evs) = rq # requests evs"
| "requests (ev # evs) = requests evs"

section \<open>Graph assembler: \<^verbatim>\<open>Grapher\<close>\<close>

text \<open>
  The mutex of the \<^verbatim>\<open>Grapher\<close> guards the render calls only, which are not modelled; the
  record has the remaining fields.
\<close>

record Grapher =
  title :: string
  vlabel :: string
  width :: nat
  height :: nat
  args :: "string list"

definition NewGrapher :: Grapher where
  "NewGrapher = \<lparr>title = [], vlabel = [], width = 0, height = 0, args = []\<rparr>"

definition SetTitle :: "Grapher \<Rightarrow> string \<Rightarrow> Grapher" where
  "SetTitle g t = g\<lparr>title := t\<rparr>"

definition SetVLabel :: "Grapher \<Rightarrow> string \<Rightarrow> Grapher" where
  "SetVLabel g l = g\<lparr>vlabel := l\<rparr>"

definition SetSize :: "Grapher \<Rightarrow> nat \<Rightarrow> nat \<Rightarrow> Grapher" where
  "SetSize g w h = g\<lparr>width := w, height := h\<rparr>"

definition push :: "Grapher \<Rightarrow> string \<Rightarrow> string list \<Rightarrow> Grapher" where
  "push g cmd options =
     (let cmd' = (if length options > 0 then cmd @ '':'' @ strings_Join options '':'' else cmd)
      in g\<lparr>args := args g @ [cmd']\<rparr>)"

definition Def ::
  "Grapher \<Rightarrow> string \<Rightarrow> string \<Rightarrow> string \<Rightarrow> string \<Rightarrow> string list \<Rightarrow> Grapher" where
  "Def g vname rrdfile dsname cf options =
     push g (''DEF:'' @ vname @ ''='' @ rrdfile @ '':'' @ dsname @ '':'' @ cf) options"

definition VDef :: "Grapher \<Rightarrow> string \<Rightarrow> string \<Rightarrow> Grapher" where
  "VDef g vname rpn = push g (''VDEF:'' @ vname @ ''='' @ rpn) []"

definition CDef :: "Grapher \<Rightarrow> string \<Rightarrow> string \<Rightarrow> Grapher" where
  "CDef g vname rpn = push g (''CDEF:'' @ vname @ ''='' @ rpn) []"

text \<open>
  \<^verbatim>\<open>Line\<close> formats its \<^verbatim>\<open>float32\<close> width with the verb \<^verbatim>\<open>%f\<close>. The floating-point type and
  its formatting are a parameter: \<open>fmt_f\<close> gives the text of a width.
\<close>

definition Line ::
  "('f \<Rightarrow> string) \<Rightarrow> Grapher \<Rightarrow> 'f \<Rightarrow> string \<Rightarrow> string \<Rightarrow> string list \<Rightarrow> Grapher" where
  "Line fmt_f g wd value color options =
     (let line = ''LINE'' @ fmt_f wd @ '':'' @ value;
          line' = (if color \<noteq> [] then line @ ''#'' @ color else line)
      in push g line' options)"

definition Print :: "Grapher \<Rightarrow> string \<Rightarrow> string \<Rightarrow> Grapher" where
  "Print g vname format = push g (''PRINT:'' @ vname @ '':'' @ format) []"

definition PrintT :: "Grapher \<Rightarrow> string \<Rightarrow> string \<Rightarrow> Grapher" where
  "PrintT g vname format = push g (''PRINT:'' @ vname @ '':'' @ format @ '':strftime'') []"

definition GPrint :: "Grapher \<Rightarrow> string \<Rightarrow> string \<Rightarrow> Grapher" where
  "GPrint g vname format = push g (''GPRINT:'' @ vname @ '':'' @ format) []"

definition GPrintT :: "Grapher \<Rightarrow> string \<Rightarrow> string \<Rightarrow> Grapher" where
  "GPrintT g vname format = push g (''GPRINT:'' @ vname @ '':'' @ format @ '':strftime'') []"

text \<open>A history of element-accumulation calls on one \<^verbatim>\<open>Grapher\<close>.\<close>

datatype 'f graph_call =
    CallDef string string string string "string list"
  | CallVDef string string
  | CallCDef string string
  | CallLine 'f string string "string list"
  | CallPrint string string
  | CallPrintT string string
  | CallGPrint string string
  | CallGPrintT string string

fun graph_do :: "('f \<Rightarrow> string) \<Rightarrow> Grapher \<Rightarrow> 'f graph_call \<Rightarrow> Grapher" where
  "graph_do fmt_f g (CallDef vname rrdfile dsname cf options) =
     Def g vname rrdfile dsname cf options"
| "graph_do fmt_f g (CallVDef vname rpn) = VDef g vname rpn"
| "graph_do fmt_f g (CallCDef vname rpn) = CDef g vname rpn"
| "graph_do fmt_f g (CallLine wd value color options) = Line fmt_f g wd value color options"
| "graph_do fmt_f g (CallPrint vname format) = Print g vname format"
| "graph_do fmt_f g (CallPrintT vname format) = PrintT g vname format"
| "graph_do fmt_f g (CallGPrint vname format) = GPrint g vname format"
| "graph_do fmt_f g (CallGPrintT vname format) = GPrintT g vname format"

text \<open>
  The token grammar of the specification: options, when there are any, follow the
  command, each after a colon.
\<close>

definition with_options :: "string \<Rightarrow> string list \<Rightarrow> string" where
  "with_options cmd options = cmd @ concat (map (\<lambda>opt. '':'' @ opt) options)"

fun graph_token :: "('f \<Rightarrow> string) \<Rightarrow> 'f graph_call \<Rightarrow> string" where
  "graph_token fmt_f (CallDef vname rrdfile dsname cf options) =
     with_options (''DEF:'' @ vname @ ''='' @ rrdfile @ '':'' @ dsname @ '':'' @ cf) options"
| "graph_token fmt_f (CallVDef vname rpn) = ''VDEF:'' @ vname @ ''='' @ rpn"
| "graph_token fmt_f (CallCDef vname rpn) = ''CDEF:'' @ vname @ ''='' @ rpn"
| "graph_token fmt_f (CallLine wd value color options) =
     with_options
       (''LINE'' @ fmt_f wd @ '':'' @ value @ (if color = [] then [] else ''#'' @ color))
       options"
| "graph_token fmt_f (CallPrint vname format) = ''PRINT:'' @ vname @ '':'' @ format"
| "graph_token fmt_f (CallPrintT vname format) =
     ''PRINT:'' @ vname @ '':'' @ format @ '':strftime''"
| "graph_token fmt_f (CallGPrint vname format) = ''GPRINT:'' @ vname @ '':'' @ format"
| "graph_token fmt_f (CallGPrintT vname format) =
     ''GPRINT:'' @ vname @ '':'' @ format @ '':strftime''"

text \<open>
  The text \<^verbatim>\<open>%f\<close> gives for a width that is a whole number: its decimal digits and six
  zero decimals.
\<close>

definition whole_f :: "nat \<Rightarrow> string" where
  "whole_f n = FormatUint n @ ''.000000''"

section \<open>A concrete world for running the model\<close>

text \<open>
  A world in which \<^verbatim>\<open>old.rrd\<close> exists, nothing is refused and descriptor 3 is the next
  free one, and an engine that accepts every create request, rejects every update
  request, and counts the requests it has served.
\<close>

definition example_world :: "nat world" where
  "example_world =
     \<lparr>files = {''old.rrd''}, refused = (\<lambda>path. None), next_fd = 3, trace = [], estate = 0\<rparr>"

definition example_engine :: "nat engine" where
  "example_engine rq served =
     (case rq of
        create_request file t0 secs tokens \<Rightarrow> (None, Suc served)
      | update_request file tmpl rows \<Rightarrow> (Some ''illegal attempt to update'', Suc served))"

definition example_start :: Time where
  "example_start = \<lparr>sec = 1500000000, nsec = 0, loc = ''UTC''\<rparr>"

section \<open>Properties of the serializer\<close>

lemma join_loop_fills:
  "i + length as = length sa \<Longrightarrow> join_loop i as sa = take i sa @ map arg_text as"
proof (induction as arbitrary: i sa)
  case Nil
  then show ?case by simp
next
  case (Cons a as)
  from Cons.prems have i: "i < length sa" by simp
  from Cons.prems have "Suc i + length as = length (sa[i := arg_text a])" by simp
  then have "join_loop (Suc i) as (sa[i := arg_text a])
               = take (Suc i) (sa[i := arg_text a]) @ map arg_text as"
    by (rule Cons.IH)
  moreover from i have "take (Suc i) (sa[i := arg_text a]) = take i sa @ [arg_text a]"
    by (simp add: take_Suc_conv_app_nth)
  ultimately show ?case by simp
qed

lemma join_loop_map:
  "join_loop 0 as (replicate (length as) []) = map arg_text as"
  by (simp add: join_loop_fills)

lemma strings_Join_colon: "strings_Join ss '':'' = colon_separated ss"
proof (induction ss rule: colon_separated.induct)
  case (3 s t ts)
  then show ?case by (cases ts) simp_all
qed simp_all

lemma arg_text_canonical: "arg_text a = canonical_text a"
  by (cases a) (simp_all add: canonical_text_def Unix_def)

lemma join_serialize_spec: "join as = serialize_spec as"
  by (simp add: join_def join_loop_map strings_Join_colon serialize_spec_def
      arg_text_canonical cong: map_cong)

lemma strings_Join_Cons:
  "strings_Join (e # es) sep = e @ concat (map (\<lambda>s. sep @ s) es)"
  by (cases es) simp_all

lemma digit_decimal: "d < 10 \<Longrightarrow> digit d \<in> set ''0123456789''"
  unfolding digit_def by (rule nth_mem) simp

lemma formatBits_within:
  assumes D: "\<And>d. d < 10 \<Longrightarrow> digit d \<in> D"
  shows "set (formatBits n acc) \<subseteq> D \<union> set acc"
proof (induction n acc rule: formatBits.induct)
  case (1 n acc)
  show ?case
  proof (cases "n < 10")
    case True
    then have "formatBits n acc = digit n # acc"
      by (subst formatBits.simps) simp
    with True D show ?thesis by simp
  next
    case False
    then have unfold: "formatBits n acc = formatBits (n div 10) (digit (n mod 10) # acc)"
      by (subst formatBits.simps) simp
    have "digit (n mod 10) \<in> D" by (rule D) simp
    moreover from False
    have "set (formatBits (n div 10) (digit (n mod 10) # acc))
            \<subseteq> D \<union> set (digit (n mod 10) # acc)"
      by (rule "1.IH")
    ultimately show ?thesis unfolding unfold by auto
  qed
qed

lemma formatBits_chars: "set (formatBits n acc) \<subseteq> set ''0123456789'' \<union> set acc"
  by (rule formatBits_within) (rule digit_decimal)

lemma FormatUint_chars: "set (FormatUint n) \<subseteq> set ''0123456789''"
  using formatBits_chars [of n "[]"] by (simp add: FormatUint_def)

lemma FormatInt_chars: "set (FormatInt i) \<subseteq> set ''-0123456789''"
proof -
  have sub: "set ''0123456789'' \<subseteq> set ''-0123456789''"
    by (simp add: subset_insertI2)
  have pos: "set (FormatUint (nat i)) \<subseteq> set ''-0123456789''"
    using FormatUint_chars sub by (rule subset_trans)
  have neg: "set (FormatUint (nat (- i))) \<subseteq> set ''-0123456789''"
    using FormatUint_chars sub by (rule subset_trans)
  have minus: "CHR ''-'' \<in> set ''-0123456789''" by simp
  show ?thesis
  proof (cases "i < 0")
    case True
    then have "FormatInt i = CHR ''-'' # FormatUint (nat (- i))"
      by (simp add: FormatInt_def)
    with neg minus show ?thesis by (simp only: list.set insert_subset simp_thms)
  next
    case False
    then have "FormatInt i = FormatUint (nat i)"
      by (simp add: FormatInt_def)
    with pos show ?thesis by (simp only:)
  qed
qed

lemma digit_value_digit: "d < 10 \<Longrightarrow> digit_value (digit d) = d"
proof -
  assume "d < 10"
  then have "d \<in> {0, 1, 2, 3, 4, 5, 6, 7, 8, 9}" by auto
  then show ?thesis
    by (elim insertE emptyE) (simp_all add: digit_def digit_value_def)
qed

lemma formatBits_acc: "formatBits n acc = formatBits n [] @ acc"
proof (induction n arbitrary: acc rule: less_induct)
  case (less n)
  show ?case
  proof (cases "n < 10")
    case True
    then show ?thesis by (simp add: formatBits.simps [of n])
  next
    case False
    then have smaller: "n div 10 < n" by simp
    from False have "formatBits n acc = formatBits (n div 10) (digit (n mod 10) # acc)"
      by (simp add: formatBits.simps [of n])
    also have "\<dots> = formatBits (n div 10) [] @ digit (n mod 10) # acc"
      by (rule less.IH [OF smaller])
    also have "\<dots> = (formatBits (n div 10) [] @ [digit (n mod 10)]) @ acc"
      by simp
    also have "formatBits (n div 10) [] @ [digit (n mod 10)]
                 = formatBits (n div 10) [digit (n mod 10)]"
      by (rule less.IH [OF smaller, symmetric])
    also from False have "formatBits (n div 10) [digit (n mod 10)] = formatBits n []"
      by (simp add: formatBits.simps [of n])
    finally show ?thesis .
  qed
qed

lemma FormatUint_digits:
  "FormatUint n = (if n < 10 then [digit n] else FormatUint (n div 10) @ [digit (n mod 10)])"
proof (cases "n < 10")
  case True
  then show ?thesis by (simp add: FormatUint_def formatBits.simps [of n])
next
  case False
  then have "formatBits n [] = formatBits (n div 10) [digit (n mod 10)]"
    by (simp add: formatBits.simps [of n])
  also have "\<dots> = formatBits (n div 10) [] @ [digit (n mod 10)]"
    by (rule formatBits_acc)
  finally show ?thesis using False by (simp add: FormatUint_def)
qed

lemma decimal_value_snoc:
  "decimal_value (ds @ [c]) = 10 * decimal_value ds + digit_value c"
  by (simp add: decimal_value_def)

lemma decimal_value_FormatUint: "decimal_value (FormatUint n) = n"
proof (induction n rule: less_induct)
  case (less n)
  show ?case
  proof (cases "n < 10")
    case True
    then have "FormatUint n = [digit n]" by (subst FormatUint_digits) simp
    with True show ?thesis by (simp add: decimal_value_def digit_value_digit)
  next
    case False
    then have "n div 10 < n" by simp
    then have "decimal_value (FormatUint (n div 10)) = n div 10" by (rule less.IH)
    moreover from False
    have "FormatUint n = FormatUint (n div 10) @ [digit (n mod 10)]"
      by (subst FormatUint_digits) simp
    ultimately show ?thesis
      by (simp add: decimal_value_snoc digit_value_digit)
  qed
qed

lemma FormatUint_unsigned: "\<exists>c ds. FormatUint n = c # ds \<and> c \<noteq> CHR ''-''"
proof -
  have "FormatUint n \<noteq> []"
    by (subst FormatUint_digits) simp
  then obtain c ds where shape: "FormatUint n = c # ds"
    by (cases "FormatUint n") auto
  with FormatUint_chars [of n] have "c \<in> set ''0123456789''" by simp
  then have "c \<noteq> CHR ''-''" by auto
  with shape show ?thesis by blast
qed

lemma integer_value_FormatInt: "integer_value (FormatInt i) = i"
proof (cases "i < 0")
  case True
  then show ?thesis
    by (simp add: FormatInt_def integer_value_def decimal_value_FormatUint)
next
  case False
  obtain c ds where shape: "FormatUint (nat i) = c # ds" and c: "c \<noteq> CHR ''-''"
    using FormatUint_unsigned [of "nat i"] by blast
  have "int (decimal_value (FormatUint (nat i))) = i"
    using False by (simp add: decimal_value_FormatUint)
  with False shape c show ?thesis
    by (simp add: FormatInt_def integer_value_def)
qed

lemma join_Nil: "join [] = []"
  by (simp add: join_def)

lemma join_single: "join [a] = arg_text a"
  by (simp add: join_def)

text \<open>
  C4. For every list of argument values, \<^verbatim>\<open>join\<close> is the canonical text of each value, in
  order, with a colon between neighbours. A \<^verbatim>\<open>time.Time\<close> value is rendered as the decimal
  text of its epoch-second count: the text reads back as that count and consists of
  decimal digits and at most a sign, so it is never a calendar string (no space, no
  letter, no colon). Every other value is rendered by the default conversion of its type.
\<close>

theorem join_canonical_texts:
  "join as = colon_separated (map canonical_text as)
   \<and> canonical_text (VTime t) = FormatInt (Unix t)
   \<and> join [VTime t] = FormatInt (Unix t)
   \<and> integer_value (join [VTime t]) = Unix t
   \<and> set (join [VTime t]) \<subseteq> set ''-0123456789''
   \<and> canonical_text (Val v) = Sprint v"
proof -
  have "join as = colon_separated (map canonical_text as)"
    using join_serialize_spec [of as] by (simp add: serialize_spec_def)
  moreover have "join [VTime t] = FormatInt (Unix t)"
    by (simp add: join_single)
  moreover have "integer_value (join [VTime t]) = Unix t"
    by (simp add: join_single integer_value_FormatInt)
  moreover have "set (join [VTime t]) \<subseteq> set ''-0123456789''"
    using FormatInt_chars [of "Unix t"] by (simp add: join_single)
  ultimately show ?thesis
    by (simp add: canonical_text_def Unix_def)
qed

text \<open>Running the serializer on a timestamp, a negative integer, a string and a boolean.\<close>

theorem join_canonical_texts_witness:
  "join [VTime example_start, Val (IntV (- 42)), Val (StringV ''U''), Val (BoolV True)]
     = ''1500000000:-42:U:true''
   \<and> join [VTime example_start] = ''1500000000''
   \<and> integer_value ''1500000000'' = 1500000000"
proof -
  let ?as = "[VTime example_start, Val (IntV (- 42)), Val (StringV ''U''), Val (BoolV True)]"
  note inst = join_canonical_texts [where as = ?as and t = example_start and v = "BoolV True"]
  have texts: "map canonical_text ?as = [''1500000000'', ''-42'', ''U'', ''true'']"
    by (simp add: canonical_text_def example_start_def FormatInt_def FormatUint_def
        formatBits.simps digit_def)
  have epoch: "FormatInt (Unix example_start) = ''1500000000''"
    by (simp add: Unix_def example_start_def FormatInt_def FormatUint_def
        formatBits.simps digit_def)
  have u: "Unix example_start = 1500000000"
    by (simp add: Unix_def example_start_def)
  from inst have "join ?as = colon_separated (map canonical_text ?as)"
    by (rule conjunct1)
  then have all: "join ?as = ''1500000000:-42:U:true''"
    by (simp only: texts) simp
  from inst have one: "join [VTime example_start] = ''1500000000''"
    by (simp only: epoch)
  from inst have "integer_value (join [VTime example_start]) = Unix example_start"
    by blast
  then have "integer_value ''1500000000'' = 1500000000"
    by (simp only: one u)
  with all one show ?thesis by (simp only: simp_thms)
qed

text \<open>
  C5. Serializing the empty argument list gives the empty string, and serializing a list
  of one value gives exactly the text of that value, with no delimiter: the epoch-second
  count for a timestamp, the default text for a value of any other type.
\<close>

theorem join_empty_and_single:
  "join [] = []
   \<and> join [VTime t] = FormatInt (Unix t)
   \<and> join [Val v] = Sprint v
   \<and> join [a] = canonical_text a"
  by (simp add: join_Nil join_single arg_text_canonical [symmetric])

text \<open>Running the serializer on no value and on one value.\<close>

theorem join_empty_and_single_witness:
  "join [] = [] \<and> join [VTime example_start] = ''1500000000''
   \<and> join [Val (StringV ''U'')] = ''U'' \<and> join [Val (UintV 300)] = ''300''"
proof -
  have epoch: "FormatInt (Unix example_start) = ''1500000000''"
    by (simp add: Unix_def example_start_def FormatInt_def FormatUint_def
        formatBits.simps digit_def)
  have secs: "FormatUint 300 = ''300''"
    by (simp add: FormatUint_def formatBits.simps digit_def)
  from join_empty_and_single
         [where t = example_start and v = "StringV ''U''" and a = "Val (UintV 300)"]
  have "join [] = [] \<and> join [VTime example_start] = FormatInt (Unix example_start)
        \<and> join [Val (StringV ''U'')] = Sprint (StringV ''U'')
        \<and> join [Val (UintV 300)] = canonical_text (Val (UintV 300))" .
  then show ?thesis
    by (simp add: epoch secs canonical_text_def)
qed

section \<open>Properties of the schema builder\<close>

lemma creator_do_args:
  "Creator.args (creator_do c call) = Creator.args c @ [creator_token call]"
  by (cases call) (simp_all add: DS_def RRA_def join_serialize_spec)

lemma creator_do_frame:
  "Creator.filename (creator_do c call) = Creator.filename c
   \<and> start (creator_do c call) = start c \<and> step (creator_do c call) = step c"
  by (cases call) (simp_all add: DS_def RRA_def)

lemma creator_calls_args:
  "Creator.args (foldl creator_do c calls) = Creator.args c @ map creator_token calls"
  by (induction calls arbitrary: c) (simp_all add: creator_do_args)

text \<open>
  C7. \<^verbatim>\<open>DS(name, compute, args...)\<close> appends exactly the token
  \<^verbatim>\<open>DS:<name>:<compute>:<serialized args>\<close> and \<^verbatim>\<open>RRA(cf, args...)\<close> appends exactly the token
  \<^verbatim>\<open>RRA:<cf>:<serialized args>\<close>, the arguments serialized by \<^verbatim>\<open>join\<close>; after any sequence of
  such calls the command list is the old list followed by the tokens of the calls in call
  order.
\<close>

theorem creator_tokens_in_call_order:
  "DS c name compute as =
     c\<lparr>Creator.args := Creator.args c @ [''DS:'' @ name @ '':'' @ compute @ '':'' @ join as]\<rparr>
   \<and> RRA c cf as = c\<lparr>Creator.args := Creator.args c @ [''RRA:'' @ cf @ '':'' @ join as]\<rparr>
   \<and> Creator.args (foldl creator_do c calls) = Creator.args c @ map creator_token calls
   \<and> Creator.args (foldl creator_do (NewCreator file t0 secs) calls) = map creator_token calls"
  by (simp add: DS_def RRA_def creator_calls_args NewCreator_def)

text \<open>Running the builder: one data source and one archive on a new \<^verbatim>\<open>Creator\<close>.\<close>

theorem creator_tokens_in_call_order_witness:
  "Creator.args
     (foldl creator_do (NewCreator ''new.rrd'' example_start 300)
        [CallDS ''load'' ''GAUGE'' [Val (IntV 600), Val (StringV ''U''), Val (StringV ''U'')],
         CallRRA ''AVERAGE'' [Val (OpaqueV ''0.5''), Val (IntV 1), Val (IntV 100)]])
   = [''DS:load:GAUGE:600:U:U'', ''RRA:AVERAGE:0.5:1:100'']"
proof -
  let ?calls =
    "[CallDS ''load'' ''GAUGE'' [Val (IntV 600), Val (StringV ''U''), Val (StringV ''U'')],
      CallRRA ''AVERAGE'' [Val (OpaqueV ''0.5''), Val (IntV 1), Val (IntV 100)]]"
  have tokens: "map creator_token ?calls = [''DS:load:GAUGE:600:U:U'', ''RRA:AVERAGE:0.5:1:100'']"
    by (simp add: serialize_spec_def canonical_text_def FormatInt_def FormatUint_def
        formatBits.simps digit_def)
  have "Creator.args (foldl creator_do (NewCreator ''new.rrd'' example_start 300) ?calls)
          = map creator_token ?calls"
    by (rule creator_tokens_in_call_order
          [of _ _ _ _ _ ?calls "''new.rrd''" example_start 300,
           THEN conjunct2, THEN conjunct2, THEN conjunct2])
  then show ?thesis by (simp only: tokens)
qed

section \<open>Properties of the graph assembler\<close>

lemma push_args:
  "Grapher.args (push g cmd options) = Grapher.args g @ [with_options cmd options]"
  by (cases options) (simp_all add: push_def with_options_def strings_Join_Cons)

lemma with_options_Nil: "with_options cmd [] = cmd"
  by (simp add: with_options_def)

lemma with_options_colon:
  "options \<noteq> [] \<Longrightarrow> with_options cmd options = cmd @ '':'' @ colon_separated options"
  by (cases options)
    (simp_all add: with_options_def strings_Join_Cons strings_Join_colon [symmetric])

lemma graph_do_args:
  "Grapher.args (graph_do fmt_f g call) = Grapher.args g @ [graph_token fmt_f call]"
  by (cases call)
    (simp_all add: Def_def VDef_def CDef_def Line_def Print_def PrintT_def GPrint_def
      GPrintT_def push_args with_options_Nil Let_def)

lemma graph_calls_args:
  "Grapher.args (foldl (graph_do fmt_f) g calls)
     = Grapher.args g @ map (graph_token fmt_f) calls"
  by (induction calls arbitrary: g) (simp_all add: graph_do_args)

text \<open>
  C8. Each of \<^verbatim>\<open>Def\<close>, \<^verbatim>\<open>VDef\<close>, \<^verbatim>\<open>CDef\<close>, \<^verbatim>\<open>Line\<close>, \<^verbatim>\<open>Print\<close>, \<^verbatim>\<open>PrintT\<close>, \<^verbatim>\<open>GPrint\<close>, \<^verbatim>\<open>GPrintT\<close>
  appends exactly one token, and after any sequence of such calls the token sequence is
  the old one followed by the tokens of the calls in call order. On a new \<^verbatim>\<open>Grapher\<close>,
  \<^verbatim>\<open>Def("a", ...)\<close>, \<^verbatim>\<open>VDef("b", "a,50,TREND")\<close>, \<^verbatim>\<open>Line(1.0, "b", "FF0000")\<close> give exactly
  three tokens in that order. \<^verbatim>\<open>Def\<close> gives \<^verbatim>\<open>DEF:<vname>=<rrdfile>:<dsname>:<cf>\<close>, followed by
  a colon and the colon-joined options when there are options. \<^verbatim>\<open>Line\<close> has no \<^verbatim>\<open>#<color>\<close>
  after the value when the color is empty, and has it when the color is not empty.
\<close>

theorem grapher_tokens_in_call_order:
  "Grapher.args (graph_do fmt_f g call) = Grapher.args g @ [graph_token fmt_f call]
   \<and> length (Grapher.args (graph_do fmt_f g call)) = Suc (length (Grapher.args g))
   \<and> Grapher.args (foldl (graph_do fmt_f) g calls)
       = Grapher.args g @ map (graph_token fmt_f) calls
   \<and> Grapher.args
        (Line fmt_f (VDef (Def NewGrapher ''a'' rrdfile dsname cf []) ''b'' ''a,50,TREND'')
           one ''b'' ''FF0000'' [])
       = [''DEF:a='' @ rrdfile @ '':'' @ dsname @ '':'' @ cf,
          ''VDEF:b=a,50,TREND'',
          ''LINE'' @ fmt_f one @ '':b#FF0000'']
   \<and> Grapher.args (Def g vname rrdfile dsname cf options)
       = Grapher.args g
         @ [(''DEF:'' @ vname @ ''='' @ rrdfile @ '':'' @ dsname @ '':'' @ cf)
            @ (if options = [] then [] else '':'' @ colon_separated options)]
   \<and> Grapher.args (Line fmt_f g wd value [] options)
       = Grapher.args g @ [with_options (''LINE'' @ fmt_f wd @ '':'' @ value) options]
   \<and> Grapher.args (Line fmt_f g wd value (k # ks) options)
       = Grapher.args g
         @ [with_options (''LINE'' @ fmt_f wd @ '':'' @ value @ ''#'' @ (k # ks)) options]"
proof -
  have "Grapher.args
          (Line fmt_f (VDef (Def NewGrapher ''a'' rrdfile dsname cf []) ''b'' ''a,50,TREND'')
             one ''b'' ''FF0000'' [])
        = [''DEF:a='' @ rrdfile @ '':'' @ dsname @ '':'' @ cf,
           ''VDEF:b=a,50,TREND'',
           ''LINE'' @ fmt_f one @ '':b#FF0000'']"
    by (simp add: Line_def VDef_def Def_def push_args with_options_Nil NewGrapher_def)
  moreover have "Grapher.args (Def g vname rrdfile dsname cf options)
       = Grapher.args g
         @ [(''DEF:'' @ vname @ ''='' @ rrdfile @ '':'' @ dsname @ '':'' @ cf)
            @ (if options = [] then [] else '':'' @ colon_separated options)]"
    by (simp add: Def_def push_args with_options_Nil with_options_colon)
  moreover have "Grapher.args (Line fmt_f g wd value [] options)
       = Grapher.args g @ [with_options (''LINE'' @ fmt_f wd @ '':'' @ value) options]"
    by (simp add: Line_def push_args)
  moreover have "Grapher.args (Line fmt_f g wd value (k # ks) options)
       = Grapher.args g
         @ [with_options (''LINE'' @ fmt_f wd @ '':'' @ value @ ''#'' @ (k # ks)) options]"
    by (simp add: Line_def push_args)
  ultimately show ?thesis
    by (simp add: graph_do_args graph_calls_args)
qed

text \<open>Running the assembler: a definition, a computed value and two lines.\<close>

theorem grapher_tokens_in_call_order_witness:
  "Grapher.args
     (foldl (graph_do whole_f) NewGrapher
        [CallDef ''a'' ''db.rrd'' ''load'' ''AVERAGE'' [],
         CallVDef ''b'' ''a,50,TREND'',
         CallLine 1 ''b'' ''FF0000'' [],
         CallLine 2 ''a'' [] [''dashes'', ''skipscale'']])
   = [''DEF:a=db.rrd:load:AVERAGE'', ''VDEF:b=a,50,TREND'', ''LINE1.000000:b#FF0000'',
      ''LINE2.000000:a:dashes:skipscale'']"
proof -
  let ?calls =
    "[CallDef ''a'' ''db.rrd'' ''load'' ''AVERAGE'' [],
      CallVDef ''b'' ''a,50,TREND'',
      CallLine (1::nat) ''b'' ''FF0000'' [],
      CallLine 2 ''a'' [] [''dashes'', ''skipscale'']]"
  have tokens: "map (graph_token whole_f) ?calls
      = [''DEF:a=db.rrd:load:AVERAGE'', ''VDEF:b=a,50,TREND'', ''LINE1.000000:b#FF0000'',
         ''LINE2.000000:a:dashes:skipscale'']"
    by (simp add: with_options_def whole_f_def FormatUint_def formatBits.simps digit_def)
  have start: "Grapher.args NewGrapher = []"
    by (simp add: NewGrapher_def)
  have "Grapher.args (foldl (graph_do whole_f) NewGrapher ?calls)
          = Grapher.args NewGrapher @ map (graph_token whole_f) ?calls"
    by (rule grapher_tokens_in_call_order
          [where fmt_f = whole_f and g = NewGrapher and calls = ?calls,
           THEN conjunct2, THEN conjunct2, THEN conjunct1])
  then show ?thesis by (simp only: tokens start append_Nil)
qed

text \<open>
  C9. On the same \<^verbatim>\<open>Grapher\<close>, variable and format, the token appended by \<^verbatim>\<open>PrintT\<close> is the
  token appended by \<^verbatim>\<open>Print\<close> followed by \<^verbatim>\<open>:strftime\<close>, and the two results differ in
  nothing but that last token; likewise \<^verbatim>\<open>GPrintT\<close> and \<^verbatim>\<open>GPrint\<close>.
\<close>

theorem print_with_time_suffix:
  "Grapher.args (Print g vname format) = Grapher.args g @ [''PRINT:'' @ vname @ '':'' @ format]
   \<and> PrintT g vname format
       = (Print g vname format)
           \<lparr>Grapher.args := Grapher.args g
              @ [last (Grapher.args (Print g vname format)) @ '':strftime'']\<rparr>
   \<and> Grapher.args (GPrint g vname format)
       = Grapher.args g @ [''GPRINT:'' @ vname @ '':'' @ format]
   \<and> GPrintT g vname format
       = (GPrint g vname format)
           \<lparr>Grapher.args := Grapher.args g
              @ [last (Grapher.args (GPrint g vname format)) @ '':strftime'']\<rparr>"
  by (simp add: Print_def PrintT_def GPrint_def GPrintT_def push_def)


text \<open>Running the assembler: the two print directives on a new \<^verbatim>\<open>Grapher\<close>.\<close>

theorem print_with_time_suffix_witness:
  "Grapher.args (Print NewGrapher ''b'' ''%c'') = [''PRINT:b:%c'']
   \<and> Grapher.args (PrintT NewGrapher ''b'' ''%c'') = [''PRINT:b:%c:strftime'']
   \<and> Grapher.args (GPrint NewGrapher ''b'' ''%c'') = [''GPRINT:b:%c'']
   \<and> Grapher.args (GPrintT NewGrapher ''b'' ''%c'') = [''GPRINT:b:%c:strftime'']"
proof -
  have start: "Grapher.args NewGrapher = []"
    by (simp add: NewGrapher_def)
  from print_with_time_suffix [where g = NewGrapher and vname = "''b''" and format = "''%c''"]
  show ?thesis by (simp add: start)
qed

section \<open>Properties of the byte buffers\<close>

lemma newCstring_bytes: "newCstring s = s @ [CHR 0x00]"
proof -
  have "drop (length s) (replicate (length s + 1) (CHR 0x00))
          = replicate (length s + 1 - length s) (CHR 0x00)"
    by (rule drop_replicate)
  also have "\<dots> = [CHR 0x00]"
    by simp
  finally show ?thesis
    unfolding newCstring_def copy_def by (simp del: replicate.simps)
qed

lemma cstring_p_newCstring: "cstring_p (newCstring s) = Some (newCstring s)"
  by (simp add: cstring_p_def newCstring_bytes)

lemma row_text_newCstring: "row_text (cstring_p (newCstring s)) = Some s"
  by (simp add: row_text_def cstring_p_def cstring_String_def newCstring_bytes)

section \<open>Properties of the sample buffer\<close>

lemma invoke_trace: "trace (snd (invoke eng rq w)) = trace w @ [Call rq]"
  by (simp add: invoke_def split: prod.split)

lemma invoke_result: "fst (invoke eng rq w) = map_option Error (fst (eng rq (estate w)))"
  by (simp add: invoke_def split: prod.split)

lemma Cache_args:
  "Updater.args (Cache u as) = Updater.args u @ [cstring_p (newCstring (join as))]"
  by (simp add: Cache_def)

lemma Cache_frame:
  "Updater.filename (Cache u as) = Updater.filename u \<and> template (Cache u as) = template u"
  by (simp add: Cache_def)

lemma Cache_all_args:
  "Updater.args (Cache_all u calls)
     = Updater.args u @ map (\<lambda>as. cstring_p (newCstring (join as))) calls"
  unfolding Cache_all_def
  by (induction calls arbitrary: u) (simp_all add: Cache_args)

lemma Cache_all_frame:
  "Updater.filename (Cache_all u calls) = Updater.filename u
   \<and> template (Cache_all u calls) = template u"
  unfolding Cache_all_def
  by (induction calls arbitrary: u) (simp_all add: Cache_frame)

lemma Update_flush:
  "Updater.args u \<noteq> [] \<Longrightarrow>
   Update eng u [] w =
     (fst (invoke eng (flush_request u) w), u\<lparr>Updater.args := []\<rparr>,
      snd (invoke eng (flush_request u) w))"
  by (simp add: Update_def update_def flush_request_def split: prod.split)

lemma Update_idle: "Updater.args u = [] \<Longrightarrow> Update eng u [] w = (None, u, w)"
  by (simp add: Update_def)

lemma Update_row:
  "as \<noteq> [] \<Longrightarrow>
   Update eng u as w =
     (fst (invoke eng (row_request u as) w), u, snd (invoke eng (row_request u as) w))"
  by (simp add: Update_def update_def row_request_def split: prod.split)

text \<open>
  C1. After n calls of \<^verbatim>\<open>Cache\<close> the pending buffer holds what it held before followed by
  the n serialized rows in call order; on an \<^verbatim>\<open>Updater\<close> whose buffer was empty (a new
  one, or one just flushed) it holds exactly those n rows. \<^verbatim>\<open>Update()\<close> without arguments
  then submits the whole buffer to the engine in one request (no request when the buffer
  is empty), returns what the engine answered, and leaves the buffer empty whatever the
  answer was: a failed flush does not put the rows back.
\<close>

theorem cache_then_flush:
  "Updater.args (Cache_all u calls)
     = Updater.args u @ map (\<lambda>as. cstring_p (newCstring (join as))) calls
   \<and> (Updater.args u = [] \<longrightarrow>
        Updater.args (Cache_all u calls)
          = map (\<lambda>as. cstring_p (newCstring (join as))) calls
        \<and> map row_text (Updater.args (Cache_all u calls)) = map (\<lambda>as. Some (join as)) calls
        \<and> length (Updater.args (Cache_all u calls)) = length calls)
   \<and> fst (snd (Update eng (Cache_all u calls) [] w))
       = (Cache_all u calls)\<lparr>Updater.args := []\<rparr>
   \<and> trace (snd (snd (Update eng (Cache_all u calls) [] w)))
       = trace w @ (if Updater.args (Cache_all u calls) = [] then []
                    else [Call (flush_request (Cache_all u calls))])
   \<and> flush_request (Cache_all u calls)
       = update_request (cstring_p (Updater.filename u)) (cstring_p (template u))
           (Updater.args (Cache_all u calls))
   \<and> fst (Update eng (Cache_all u calls) [] w)
       = (if Updater.args (Cache_all u calls) = [] then None
          else map_option Error (fst (eng (flush_request (Cache_all u calls)) (estate w))))"
proof -
  let ?U = "Cache_all u calls"
  let ?rows = "map (\<lambda>as. cstring_p (newCstring (join as))) calls"
  have buf: "Updater.args ?U = Updater.args u @ ?rows"
    by (rule Cache_all_args)
  have exact: "Updater.args ?U = ?rows
               \<and> map row_text (Updater.args ?U) = map (\<lambda>as. Some (join as)) calls
               \<and> length (Updater.args ?U) = length calls"
    if "Updater.args u = []"
    using that by (simp add: buf row_text_newCstring)
  have rq: "flush_request ?U
         = update_request (cstring_p (Updater.filename u)) (cstring_p (template u))
             (Updater.args ?U)"
    by (simp add: flush_request_def Cache_all_frame)
  have flush:
    "fst (snd (Update eng ?U [] w)) = ?U\<lparr>Updater.args := []\<rparr>
     \<and> trace (snd (snd (Update eng ?U [] w)))
         = trace w @ (if Updater.args ?U = [] then [] else [Call (flush_request ?U)])
     \<and> fst (Update eng ?U [] w)
         = (if Updater.args ?U = [] then None
            else map_option Error (fst (eng (flush_request ?U) (estate w))))"
  proof (cases "Updater.args ?U = []")
    case True
    then have "Update eng ?U [] w = (None, ?U, w)" by (rule Update_idle)
    moreover from True have "?U\<lparr>Updater.args := []\<rparr> = ?U" by simp
    ultimately show ?thesis using True by simp
  next
    case False
    then have "Update eng ?U [] w =
       (fst (invoke eng (flush_request ?U) w), ?U\<lparr>Updater.args := []\<rparr>,
        snd (invoke eng (flush_request ?U) w))"
      by (rule Update_flush)
    with False show ?thesis
      by (simp add: invoke_trace invoke_result)
  qed
  from buf exact rq flush show ?thesis by blast
qed

text \<open>Running the model: a buffered flush that the engine rejects.\<close>

theorem cache_then_flush_witness:
  "Updater.args (NewUpdater ''db.rrd'') = []
   \<and> map row_text
        (Updater.args
          (Cache_all (NewUpdater ''db.rrd'')
             [[VTime example_start, Val (IntV 7)], [Val (StringV ''N''), Val (UintV 12)]]))
       = [Some ''1500000000:7'', Some ''N:12'']
   \<and> Updater.args
        (fst (snd (Update example_engine
           (Cache_all (NewUpdater ''db.rrd'')
              [[VTime example_start, Val (IntV 7)], [Val (StringV ''N''), Val (UintV 12)]])
           [] example_world))) = []
   \<and> fst (Update example_engine
           (Cache_all (NewUpdater ''db.rrd'')
              [[VTime example_start, Val (IntV 7)], [Val (StringV ''N''), Val (UintV 12)]])
           [] example_world) = Some (Error ''illegal attempt to update'')
   \<and> trace (snd (snd (Update example_engine
           (Cache_all (NewUpdater ''db.rrd'')
              [[VTime example_start, Val (IntV 7)], [Val (StringV ''N''), Val (UintV 12)]])
           [] example_world)))
       = [Call (update_request (Some (''db.rrd'' @ [CHR 0x00])) None
                  [Some (''1500000000:7'' @ [CHR 0x00]), Some (''N:12'' @ [CHR 0x00])])]"
proof -
  let ?calls = "[[VTime example_start, Val (IntV 7)], [Val (StringV ''N''), Val (UintV 12)]]"
  let ?U = "Cache_all (NewUpdater ''db.rrd'') ?calls"
  note inst = cache_then_flush
    [where u = "NewUpdater ''db.rrd''" and calls = ?calls and eng = example_engine
       and w = example_world]
  have empty: "Updater.args (NewUpdater ''db.rrd'') = []"
    by (simp add: NewUpdater_def)
  have j1: "join [VTime example_start, Val (IntV 7)] = ''1500000000:7''"
    by (simp add: join_def Unix_def example_start_def FormatInt_def FormatUint_def
        formatBits.simps digit_def)
  have j2: "join [Val (StringV ''N''), Val (UintV 12)] = ''N:12''"
    by (simp add: join_def FormatUint_def formatBits.simps digit_def)
  from inst empty have "map row_text (Updater.args ?U) = map (\<lambda>as. Some (join as)) ?calls"
    by blast
  then have texts: "map row_text (Updater.args ?U) = [Some ''1500000000:7'', Some ''N:12'']"
    by (simp add: j1 j2)
  from inst empty
  have "Updater.args ?U = map (\<lambda>as. cstring_p (newCstring (join as))) ?calls"
    by blast
  then have buf: "Updater.args ?U
               = [Some (''1500000000:7'' @ [CHR 0x00]), Some (''N:12'' @ [CHR 0x00])]"
    by (simp add: j1 j2 newCstring_bytes cstring_p_def)
  from inst have "flush_request ?U
      = update_request (cstring_p (Updater.filename (NewUpdater ''db.rrd'')))
          (cstring_p (template (NewUpdater ''db.rrd''))) (Updater.args ?U)"
    by blast
  moreover have "cstring_p (Updater.filename (NewUpdater ''db.rrd''))
                   = Some (''db.rrd'' @ [CHR 0x00])"
    and "cstring_p (template (NewUpdater ''db.rrd'')) = None"
    by (simp_all add: NewUpdater_def newCstring_bytes cstring_p_def)
  ultimately have rq: "flush_request ?U
              = update_request (Some (''db.rrd'' @ [CHR 0x00])) None
                  [Some (''1500000000:7'' @ [CHR 0x00]), Some (''N:12'' @ [CHR 0x00])]"
    by (simp only: buf)
  have w: "trace example_world = []"
    by (simp add: example_world_def)
  have answer: "\<And>file tmpl rows served.
      fst (example_engine (update_request file tmpl rows) served)
        = Some ''illegal attempt to update''"
    by (simp add: example_engine_def)
  have pending: "Updater.args ?U \<noteq> []"
    by (simp add: buf)
  from inst pending
  have "fst (snd (Update example_engine ?U [] example_world)) = ?U\<lparr>Updater.args := []\<rparr>"
    and "trace (snd (snd (Update example_engine ?U [] example_world)))
           = trace example_world @ [Call (flush_request ?U)]"
    and "fst (Update example_engine ?U [] example_world)
           = map_option Error (fst (example_engine (flush_request ?U) (estate example_world)))"
    by simp_all
  then show ?thesis
    by (simp add: empty texts rq w answer)
qed

text \<open>
  C2. \<^verbatim>\<open>Update(args...)\<close> with at least one argument serializes the arguments into one
  row and submits that single row to the engine in one request. The \<^verbatim>\<open>Updater\<close>, and with
  it the pending buffer, is the same afterwards, whatever the engine answered; and the
  buffer is not read: with any other buffer contents the answer and the world afterwards
  are the same.
\<close>

theorem update_with_args_bypasses_buffer:
  assumes "as \<noteq> []"
  shows
    "fst (snd (Update eng u as w)) = u
     \<and> trace (snd (snd (Update eng u as w)))
         = trace w @ [Call (update_request (cstring_p (Updater.filename u))
                              (cstring_p (template u)) [cstring_p (newCstring (join as))])]
     \<and> row_text (cstring_p (newCstring (join as))) = Some (join as)
     \<and> fst (Update eng u as w) = map_option Error (fst (eng (row_request u as) (estate w)))
     \<and> Update eng (u\<lparr>Updater.args := pending\<rparr>) as w
         = (fst (Update eng u as w), u\<lparr>Updater.args := pending\<rparr>,
            snd (snd (Update eng u as w)))"
proof -
  have same: "row_request (u\<lparr>Updater.args := pending\<rparr>) as = row_request u as"
    by (simp add: row_request_def)
  from assms show ?thesis
    by (simp add: Update_row same invoke_trace invoke_result row_text_newCstring)
      (simp add: row_request_def)
qed

text \<open>Running the model: one row submitted at once while two rows stay pending.\<close>

theorem update_with_args_bypasses_buffer_witness:
  "[Val (StringV ''N''), Val (IntV 5)] \<noteq> []
   \<and> fst (snd (Update example_engine
        (Cache_all (NewUpdater ''db.rrd'') [[Val (IntV 1)], [Val (IntV 2)]])
        [Val (StringV ''N''), Val (IntV 5)] example_world))
       = Cache_all (NewUpdater ''db.rrd'') [[Val (IntV 1)], [Val (IntV 2)]]
   \<and> trace (snd (snd (Update example_engine
        (Cache_all (NewUpdater ''db.rrd'') [[Val (IntV 1)], [Val (IntV 2)]])
        [Val (StringV ''N''), Val (IntV 5)] example_world)))
       = [Call (update_request (Some (''db.rrd'' @ [CHR 0x00])) None
                  [Some (''N:5'' @ [CHR 0x00])])]"
proof -
  have nonempty: "[Val (StringV ''N''), Val (IntV 5)] \<noteq> []" by simp
  have j: "join [Val (StringV ''N''), Val (IntV 5)] = ''N:5''"
    by (simp add: join_def FormatInt_def FormatUint_def formatBits.simps digit_def)
  have same:
    "Updater.filename (Cache_all (NewUpdater ''db.rrd'') [[Val (IntV 1)], [Val (IntV 2)]])
       = newCstring ''db.rrd''
     \<and> template (Cache_all (NewUpdater ''db.rrd'') [[Val (IntV 1)], [Val (IntV 2)]]) = []"
    by (simp add: Cache_all_frame NewUpdater_def)
  show ?thesis
    using update_with_args_bypasses_buffer [OF nonempty,
        of example_engine
           "Cache_all (NewUpdater ''db.rrd'') [[Val (IntV 1)], [Val (IntV 2)]]"
           example_world]
    by (simp add: j same example_world_def newCstring_bytes cstring_p_def)
qed

text \<open>
  C3. \<^verbatim>\<open>Update()\<close> without arguments on an \<^verbatim>\<open>Updater\<close> whose pending buffer is empty returns
  nil and leaves the \<^verbatim>\<open>Updater\<close> and the world as they were: no request reaches the
  engine.
\<close>

theorem update_empty_buffer_noop:
  assumes "Updater.args u = []"
  shows "Update eng u [] w = (None, u, w)
         \<and> requests (trace (snd (snd (Update eng u [] w)))) = requests (trace w)"
  using assms by (simp add: Update_idle)

text \<open>Running the model: a flush with nothing pending.\<close>

theorem update_empty_buffer_noop_witness:
  "Updater.args (NewUpdater ''db.rrd'') = []
   \<and> Update example_engine (NewUpdater ''db.rrd'') [] example_world
       = (None, NewUpdater ''db.rrd'', example_world)"
proof -
  have empty: "Updater.args (NewUpdater ''db.rrd'') = []"
    by (simp add: NewUpdater_def)
  show ?thesis
    using update_empty_buffer_noop [OF empty, of example_engine example_world]
    by (simp add: empty)
qed

section \<open>Properties of schema creation\<close>

text \<open>
  C6. \<^verbatim>\<open>Create(false)\<close> on a target that already exists returns the \<^verbatim>\<open>*os.PathError\<close> of
  the failed open (the cause is \<open>EEXIST\<close> unless the system refuses the path for a cause
  of its own), which is not an engine error, and leaves the world as it was: no create
  request reaches the engine. When the target does not exist and nothing is refused, what
  happens is, in this order, the exclusive open, the close of the handle it returned, and
  the create request to the engine, whose answer is returned.
\<close>

theorem create_probes_before_engine:
  "(Creator.filename c \<in> files w \<longrightarrow>
      fst (Create eng c False w)
        = Some (PathError ''open'' (Creator.filename c)
                  (case refused w (Creator.filename c) of Some e \<Rightarrow> e | None \<Rightarrow> EEXIST))
      \<and> fst (Create eng c False w) \<noteq> Some (Error msg)
      \<and> snd (Create eng c False w) = w)
   \<and> (Creator.filename c \<notin> files w \<and> refused w (Creator.filename c) = None \<longrightarrow>
      trace (snd (Create eng c False w))
        = trace w
          @ [Opened (Creator.filename c) (next_fd w), Closed (next_fd w),
             Call (create_request (Creator.filename c) (Unix (start c)) (step c)
                     (Creator.args c))]
      \<and> fst (Create eng c False w)
        = map_option Error
            (fst (eng (create_request (Creator.filename c) (Unix (start c)) (step c)
                         (Creator.args c)) (estate w))))"
  by (simp add: Create_def OpenFile_def create_def Close_def invoke_def
      split: option.split prod.split)

text \<open>Running the model: creation over an existing file, and creation of a new one.\<close>

theorem create_probes_before_engine_witness:
  "''old.rrd'' \<in> files example_world
   \<and> Create example_engine (NewCreator ''old.rrd'' example_start 300) False example_world
       = (Some (PathError ''open'' ''old.rrd'' EEXIST), example_world)
   \<and> ''new.rrd'' \<notin> files example_world \<and> refused example_world ''new.rrd'' = None
   \<and> trace (snd (Create example_engine
        (DS (NewCreator ''new.rrd'' example_start 300) ''load'' ''GAUGE''
           [Val (IntV 600), Val (StringV ''U''), Val (StringV ''U'')])
        False example_world))
       = [Opened ''new.rrd'' 3, Closed 3,
          Call (create_request ''new.rrd'' 1500000000 300 [''DS:load:GAUGE:600:U:U''])]
   \<and> fst (Create example_engine
        (DS (NewCreator ''new.rrd'' example_start 300) ''load'' ''GAUGE''
           [Val (IntV 600), Val (StringV ''U''), Val (StringV ''U'')])
        False example_world) = None"
proof -
  let ?old = "NewCreator ''old.rrd'' example_start 300"
  let ?new = "DS (NewCreator ''new.rrd'' example_start 300) ''load'' ''GAUGE''
                [Val (IntV 600), Val (StringV ''U''), Val (StringV ''U'')]"
  have j: "join [Val (IntV 600), Val (StringV ''U''), Val (StringV ''U'')] = ''600:U:U''"
    by (simp add: join_def FormatInt_def FormatUint_def formatBits.simps digit_def)
  have old: "Creator.filename ?old = ''old.rrd''"
    by (simp add: NewCreator_def)
  have new: "Creator.filename ?new = ''new.rrd'' \<and> Unix (start ?new) = 1500000000
             \<and> step ?new = 300 \<and> Creator.args ?new = [''DS:load:GAUGE:600:U:U'']"
    by (simp add: DS_def NewCreator_def j Unix_def example_start_def)
  have w: "files example_world = {''old.rrd''} \<and> refused example_world = (\<lambda>path. None)
           \<and> next_fd example_world = 3 \<and> trace example_world = []
           \<and> estate example_world = 0"
    by (simp add: example_world_def)
  from create_probes_before_engine
         [where c = ?old and w = example_world and eng = example_engine]
  have existing:
    "fst (Create example_engine ?old False example_world)
       = Some (PathError ''open'' ''old.rrd'' EEXIST)
     \<and> snd (Create example_engine ?old False example_world) = example_world"
    by (simp add: old w)
  from create_probes_before_engine
         [where c = ?new and w = example_world and eng = example_engine]
  have fresh:
    "trace (snd (Create example_engine ?new False example_world))
       = [Opened ''new.rrd'' 3, Closed 3,
          Call (create_request ''new.rrd'' 1500000000 300 [''DS:load:GAUGE:600:U:U''])]
     \<and> fst (Create example_engine ?new False example_world) = None"
    by (simp add: new w example_engine_def)
  from existing fresh show ?thesis
    by (simp add: w prod_eq_iff)
qed


section \<open>Properties of the update template\<close>

lemma update_templates_append:
  "update_templates (evs @ evs') = update_templates evs @ update_templates evs'"
  by (induction evs rule: update_templates.induct) simp_all

lemma SetTemplate_template:
  "template (SetTemplate u names) = newCstring (colon_separated names)"
  by (simp add: SetTemplate_def strings_Join_colon)

lemma Update_keeps_template:
  "template (fst (snd (Update eng u as w))) = template u"
proof (cases "as = []")
  case False
  then show ?thesis by (simp add: Update_row)
next
  case True
  show ?thesis
  proof (cases "Updater.args u = []")
    case True
    with \<open>as = []\<close> show ?thesis by (simp add: Update_idle)
  next
    case False
    with \<open>as = []\<close> show ?thesis by (simp add: Update_flush)
  qed
qed

lemma Update_trace:
  "\<exists>new. trace (snd (snd (Update eng u as w))) = trace w @ new
         \<and> set (update_templates new) \<subseteq> {cstring_p (template u)}"
proof (cases "as = []")
  case False
  then have "trace (snd (snd (Update eng u as w))) = trace w @ [Call (row_request u as)]"
    by (simp add: Update_row invoke_trace)
  moreover have "set (update_templates [Call (row_request u as)]) \<subseteq> {cstring_p (template u)}"
    by (simp add: row_request_def)
  ultimately show ?thesis by blast
next
  case True
  show ?thesis
  proof (cases "Updater.args u = []")
    case True
    with \<open>as = []\<close> have "trace (snd (snd (Update eng u as w))) = trace w @ []"
      by (simp add: Update_idle)
    moreover have "set (update_templates []) \<subseteq> {cstring_p (template u)}" by simp
    ultimately show ?thesis by blast
  next
    case False
    with \<open>as = []\<close>
    have "trace (snd (snd (Update eng u as w))) = trace w @ [Call (flush_request u)]"
      by (simp add: Update_flush invoke_trace)
    moreover have "set (update_templates [Call (flush_request u)]) \<subseteq> {cstring_p (template u)}"
      by (simp add: flush_request_def)
    ultimately show ?thesis by blast
  qed
qed

lemma updater_do_step:
  assumes "\<not> is_SetTemplate call"
  shows "template (fst (updater_do eng (u, w) call)) = template u
         \<and> (\<exists>new. trace (snd (updater_do eng (u, w) call)) = trace w @ new
                  \<and> set (update_templates new) \<subseteq> {cstring_p (template u)})"
proof (cases call)
  case (CallSetTemplate names)
  with assms show ?thesis by simp
next
  case (CallCache as)
  have "trace w = trace w @ [] \<and> set (update_templates []) \<subseteq> {cstring_p (template u)}"
    by simp
  then have "\<exists>new. trace w = trace w @ new
                  \<and> set (update_templates new) \<subseteq> {cstring_p (template u)}"
    by blast
  with CallCache show ?thesis by (simp add: Cache_frame)
next
  case (CallUpdate as)
  with Update_keeps_template [of eng u as w] Update_trace [of eng u as w]
  show ?thesis by simp
qed

lemma updater_run:
  assumes "list_all (\<lambda>call. \<not> is_SetTemplate call) calls"
  shows "template (fst (foldl (updater_do eng) (u, w) calls)) = template u
         \<and> (\<exists>new. trace (snd (foldl (updater_do eng) (u, w) calls)) = trace w @ new
                  \<and> set (update_templates new) \<subseteq> {cstring_p (template u)})"
  using assms
proof (induction calls arbitrary: u w)
  case Nil
  have "trace w = trace w @ [] \<and> set (update_templates []) \<subseteq> {cstring_p (template u)}"
    by simp
  then have "\<exists>new. trace w = trace w @ new
                  \<and> set (update_templates new) \<subseteq> {cstring_p (template u)}"
    by blast
  then show ?case by simp
next
  case (Cons call calls)
  obtain u1 w1 where step: "updater_do eng (u, w) call = (u1, w1)"
    by (cases "updater_do eng (u, w) call")
  from Cons.prems have call: "\<not> is_SetTemplate call"
    and rest: "list_all (\<lambda>call. \<not> is_SetTemplate call) calls"
    by simp_all
  from updater_do_step [OF call, of eng u w] step
  obtain new1 where t1: "template u1 = template u"
    and tr1: "trace w1 = trace w @ new1"
    and ts1: "set (update_templates new1) \<subseteq> {cstring_p (template u)}"
    by auto
  from Cons.IH [OF rest, of u1 w1]
  obtain new2 where t2: "template (fst (foldl (updater_do eng) (u1, w1) calls)) = template u1"
    and tr2: "trace (snd (foldl (updater_do eng) (u1, w1) calls)) = trace w1 @ new2"
    and ts2: "set (update_templates new2) \<subseteq> {cstring_p (template u1)}"
    by auto
  have "trace (snd (foldl (updater_do eng) (u1, w1) calls)) = trace w @ (new1 @ new2)"
    by (simp add: tr2 tr1)
  moreover have "set (update_templates (new1 @ new2)) \<subseteq> {cstring_p (template u)}"
    using ts1 ts2 by (simp add: update_templates_append t1)
  ultimately have "\<exists>new. trace (snd (foldl (updater_do eng) (u1, w1) calls)) = trace w @ new
                  \<and> set (update_templates new) \<subseteq> {cstring_p (template u)}"
    by blast
  with t2 t1 step show ?case by simp
qed

text \<open>
  C10. \<^verbatim>\<open>SetTemplate\<close> has no error to return and no guard: a second call replaces the
  template recorded by the first with the colon-join of the new names (as a
  zero-terminated buffer), whatever was recorded before. In any later history of
  \<^verbatim>\<open>Cache\<close> and \<^verbatim>\<open>Update\<close> calls without a further \<^verbatim>\<open>SetTemplate\<close>, the trace only grows and
  every update request added to it carries that most recent template.
\<close>

theorem set_template_replaces:
  "SetTemplate (SetTemplate u names) names' = SetTemplate u names'
   \<and> template (SetTemplate (SetTemplate u names) names') = newCstring (colon_separated names')
   \<and> cstring_String (template (SetTemplate (SetTemplate u names) names'))
       = Some (colon_separated names')
   \<and> (list_all (\<lambda>call. \<not> is_SetTemplate call) calls \<longrightarrow>
        take (length (trace w))
          (trace (snd (foldl (updater_do eng) (SetTemplate (SetTemplate u names) names', w)
                         calls))) = trace w
        \<and> set (update_templates
               (drop (length (trace w))
                  (trace (snd (foldl (updater_do eng)
                                 (SetTemplate (SetTemplate u names) names', w) calls)))))
            \<subseteq> {Some (newCstring (colon_separated names'))})"
proof -
  let ?u = "SetTemplate (SetTemplate u names) names'"
  have twice: "?u = SetTemplate u names'"
    by (simp add: SetTemplate_def)
  have tmpl: "template ?u = newCstring (colon_separated names')"
    by (rule SetTemplate_template)
  have readback: "cstring_String (template ?u) = Some (colon_separated names')"
    by (simp add: tmpl cstring_String_def newCstring_bytes)
  have later: "take (length (trace w)) (trace (snd (foldl (updater_do eng) (?u, w) calls)))
                 = trace w
               \<and> set (update_templates
                      (drop (length (trace w))
                         (trace (snd (foldl (updater_do eng) (?u, w) calls)))))
                   \<subseteq> {Some (newCstring (colon_separated names'))}"
    if "list_all (\<lambda>call. \<not> is_SetTemplate call) calls"
  proof -
    from updater_run [OF that, of eng ?u w]
    obtain new where tr: "trace (snd (foldl (updater_do eng) (?u, w) calls)) = trace w @ new"
      and ts: "set (update_templates new) \<subseteq> {cstring_p (template ?u)}"
      by auto
    have "cstring_p (template ?u) = Some (newCstring (colon_separated names'))"
      by (simp only: tmpl cstring_p_newCstring)
    with ts show ?thesis by (simp only: tr) simp
  qed
  from twice tmpl readback later show ?thesis by blast
qed

text \<open>
  Running the model: a template set twice, then a buffered flush and an immediate
  update.
\<close>

theorem set_template_replaces_witness:
  "list_all (\<lambda>call. \<not> is_SetTemplate call)
     [CallCache [Val (IntV 1), Val (IntV 2)], CallUpdate [], CallUpdate [Val (IntV 3)]]
   \<and> update_templates
       (trace (snd (foldl (updater_do example_engine)
          (SetTemplate (SetTemplate (NewUpdater ''db.rrd'') [''in'']) [''out'', ''err''],
           example_world)
          [CallCache [Val (IntV 1), Val (IntV 2)], CallUpdate [], CallUpdate [Val (IntV 3)]])))
       = [Some (''out:err'' @ [CHR 0x00]), Some (''out:err'' @ [CHR 0x00])]
   \<and> set (update_templates
       (trace (snd (foldl (updater_do example_engine)
          (SetTemplate (SetTemplate (NewUpdater ''db.rrd'') [''in'']) [''out'', ''err''],
           example_world)
          [CallCache [Val (IntV 1), Val (IntV 2)], CallUpdate [], CallUpdate [Val (IntV 3)]]))))
       \<subseteq> {Some (newCstring (colon_separated [''out'', ''err'']))}"
proof -
  let ?calls =
    "[CallCache [Val (IntV 1), Val (IntV 2)], CallUpdate [], CallUpdate [Val (IntV 3)]]"
  let ?u = "SetTemplate (SetTemplate (NewUpdater ''db.rrd'') [''in'']) [''out'', ''err'']"
  have pure: "list_all (\<lambda>call. \<not> is_SetTemplate call) ?calls"
    by simp
  have w: "trace example_world = []"
    by (simp add: example_world_def)
  have run: "update_templates (trace (snd (foldl (updater_do example_engine)
               (?u, example_world) ?calls)))
             = [Some (''out:err'' @ [CHR 0x00]), Some (''out:err'' @ [CHR 0x00])]"
    by (simp add: SetTemplate_def NewUpdater_def Cache_def Update_def update_def invoke_def
        example_engine_def example_world_def newCstring_bytes cstring_p_def)
  note later =
    set_template_replaces
      [where u = "NewUpdater ''db.rrd''" and names = "[''in'']"
         and names' = "[''out'', ''err'']" and calls = ?calls and w = example_world
         and eng = example_engine,
       THEN conjunct2, THEN conjunct2, THEN conjunct2, THEN mp, OF pure, THEN conjunct2]
  have "set (update_templates
         (trace (snd (foldl (updater_do example_engine) (?u, example_world) ?calls))))
        \<subseteq> {Some (newCstring (colon_separated [''out'', ''err'']))}"
    using later by (simp only: w list.size drop_0)
  with pure run show ?thesis by (simp only: simp_thms)
qed

end
